theory Spec2Isabelle
  imports Main
begin

section \<open>JavaScript values\<close>

text \<open>
  A JavaScript string is a sequence of UTF-16 code units; a code unit is modelled by its
  number. \<open>lit\<close> turns a literal of the source into such a sequence.
\<close>

type_synonym jsstring = "nat list"

definition lit :: "string \<Rightarrow> jsstring" where
  "lit s = map of_char s"

text \<open>
  The values that flow through the two modules. Numbers are integers (the programs only
  compare and copy status codes); functions are not modelled.  An object is the list of
  its own properties, the first binding of a key being the property's value.
\<close>

datatype jsval =
    JUndefined
  | JNull
  | JBool bool
  | JNum int
  | JBigInt int
  | JSymbol nat
  | JStr jsstring
  | JArr "jsval list"
  | JObj "(jsstring \<times> jsval) list"

datatype jstype =
    T_undefined | T_object | T_boolean | T_number | T_bigint | T_symbol | T_string

text \<open>The \<^verbatim>\<open>typeof\<close> operator; \<^verbatim>\<open>typeof null\<close> is \<^verbatim>\<open>'object'\<close>.\<close>

fun typeof :: "jsval \<Rightarrow> jstype" where
  "typeof JUndefined = T_undefined"
| "typeof JNull = T_object"
| "typeof (JBool b) = T_boolean"
| "typeof (JNum n) = T_number"
| "typeof (JBigInt n) = T_bigint"
| "typeof (JSymbol n) = T_symbol"
| "typeof (JStr s) = T_string"
| "typeof (JArr xs) = T_object"
| "typeof (JObj kvs) = T_object"

text \<open>Truthiness, as \<^verbatim>\<open>||\<close>, \<^verbatim>\<open>&&\<close> and \<^verbatim>\<open>if\<close> test it.\<close>

fun truthy :: "jsval \<Rightarrow> bool" where
  "truthy JUndefined = False"
| "truthy JNull = False"
| "truthy (JBool b) = b"
| "truthy (JNum n) = (n \<noteq> 0)"
| "truthy (JBigInt n) = (n \<noteq> 0)"
| "truthy (JSymbol n) = True"
| "truthy (JStr s) = (s \<noteq> [])"
| "truthy (JArr xs) = True"
| "truthy (JObj kvs) = True"

fun nullish :: "jsval \<Rightarrow> bool" where
  "nullish JUndefined = True"
| "nullish JNull = True"
| "nullish v = False"

text \<open>What the runtime throws, and what a collaborator throws or rejects with.\<close>

datatype exn = TypeError | Raised jsval

text \<open>
  Reading a property of a value that is neither \<^verbatim>\<open>undefined\<close> nor \<^verbatim>\<open>null\<close>. The keys the
  programs read (\<^verbatim>\<open>message\<close>, \<^verbatim>\<open>statusCode\<close>, \<^verbatim>\<open>data\<close>, \<^verbatim>\<open>payload\<close>, \<^verbatim>\<open>error\<close>) are no
  properties of a primitive, of an array or of \<^verbatim>\<open>Object.prototype\<close>.
\<close>

fun prop_of :: "jsval \<Rightarrow> jsstring \<Rightarrow> jsval" where
  "prop_of (JObj kvs) k = (case map_of kvs k of None \<Rightarrow> JUndefined | Some v \<Rightarrow> v)"
| "prop_of v k = JUndefined"

text \<open>\<^verbatim>\<open>v.k\<close>: a TypeError on \<^verbatim>\<open>undefined\<close> and \<^verbatim>\<open>null\<close>.\<close>

definition get_member :: "jsval \<Rightarrow> jsstring \<Rightarrow> exn + jsval" where
  "get_member v k = (if nullish v then Inl TypeError else Inr (prop_of v k))"

text \<open>\<^verbatim>\<open>v?.k\<close>: \<^verbatim>\<open>undefined\<close> on \<^verbatim>\<open>undefined\<close> and \<^verbatim>\<open>null\<close>, never an exception.\<close>

definition opt_member :: "jsval \<Rightarrow> jsstring \<Rightarrow> jsval" where
  "opt_member v k = (if nullish v then JUndefined else prop_of v k)"

text \<open>\<^verbatim>\<open>k in v\<close>: a TypeError unless \<open>v\<close> is an object.\<close>

fun in_op :: "jsstring \<Rightarrow> jsval \<Rightarrow> exn + bool" where
  "in_op k (JObj kvs) = Inr (k \<in> set (map fst kvs))"
| "in_op k (JArr xs) = Inr False"
| "in_op k v = Inl TypeError"

text \<open>
  \<^verbatim>\<open>String.prototype.trim\<close> removes WhiteSpace and LineTerminator code points from both
  ends; all of them are single code units.
\<close>

definition is_ws :: "nat \<Rightarrow> bool" where
  "is_ws c = (c \<in> set [9, 10, 11, 12, 13, 32, 160, 5760,
                         8192, 8193, 8194, 8195, 8196, 8197, 8198, 8199, 8200, 8201, 8202,
                         8232, 8233, 8239, 8287, 12288, 65279])"

definition trim :: "jsstring \<Rightarrow> jsstring" where
  "trim s = rev (dropWhile is_ws (rev (dropWhile is_ws s)))"

text \<open>\<^verbatim>\<open>v.trim()\<close>: only a string has the method.\<close>

fun call_trim :: "jsval \<Rightarrow> exn + jsstring" where
  "call_trim (JStr s) = Inr (trim s)"
| "call_trim v = Inl TypeError"

text \<open>Sequencing of computations that may throw.\<close>

definition bind_exn :: "exn + 'a \<Rightarrow> ('a \<Rightarrow> exn + 'b) \<Rightarrow> exn + 'b" where
  "bind_exn m f = (case m of Inl e \<Rightarrow> Inl e | Inr x \<Rightarrow> f x)"

text \<open>\<^verbatim>\<open>a && b\<close> on conditions: \<open>b\<close> is evaluated only when \<open>a\<close> holds.\<close>

definition and_then :: "exn + bool \<Rightarrow> exn + bool \<Rightarrow> exn + bool" where
  "and_then a b = bind_exn a (\<lambda>x. if x then b else Inr False)"

section \<open>Axios errors\<close>

text \<open>
  \<^verbatim>\<open>AxiosResponse\<close>, \<^verbatim>\<open>InternalAxiosRequestConfig\<close> and \<^verbatim>\<open>AxiosError\<close>, with the fields the
  programs read. An absent optional field is \<open>None\<close>.
\<close>

record axios_response =
  status :: int
  data :: jsval

record request_config =
  url :: "jsstring option"

record axios_error =
  message :: jsstring
  response :: "axios_response option"
  config :: "request_config option"

text \<open>
  A value of type \<^verbatim>\<open>unknown\<close>, split by the two \<^verbatim>\<open>instanceof\<close> tests of the source: an
  \<^verbatim>\<open>AxiosError\<close>, another \<^verbatim>\<open>Error\<close> (with its message), or a value that is neither. Such
  a value is a plain one (a primitive, \<^verbatim>\<open>null\<close>, an array, an object of data properties),
  or an object whose inspection runs code of its own: an object with accessor
  properties, or a \<^verbatim>\<open>Proxy\<close> of a plain object with \<^verbatim>\<open>has\<close> and \<^verbatim>\<open>get\<close> traps. Such an
  object is given by what \<^verbatim>\<open>k in error\<close> and what a read of \<^verbatim>\<open>error.k\<close> do: return a
  value or throw (a read of a key gives the same each time).
\<close>

datatype unknown =
    Axios_error axios_error
  | Error_object jsstring
  | Plain jsval
  | Exotic_object "jsstring \<Rightarrow> exn + bool" "jsstring \<Rightarrow> exn + jsval"

section \<open>errorHandler: processStoreError\<close>

record processed_error =
  statusCode :: int
  message_of :: jsval
  data_of :: jsval
  isAxiosError :: bool
  originalError :: unknown

definition default_message :: jsstring where
  "default_message = lit ''An unexpected error occurred. Please try again.''"

definition server_message :: jsstring where
  "server_message = lit ''A server communication error occurred.''"

text \<open>
  The three updates of the branch for an object, each behind its guard. \<open>has k\<close> is the
  test \<^verbatim>\<open>k in error\<close> and \<open>get k\<close> the read \<^verbatim>\<open>error.k\<close>, done as often as the source does it.
\<close>

definition object_message ::
    "(jsstring \<Rightarrow> exn + bool) \<Rightarrow> (jsstring \<Rightarrow> exn + jsval) \<Rightarrow> jsval \<Rightarrow> exn + jsval" where
  "object_message has get msg =
     bind_exn
       (and_then (has (lit ''message''))
          (bind_exn (get (lit ''message'')) (\<lambda>m.
             and_then (Inr (typeof m = T_string))
               (bind_exn (get (lit ''message'')) (\<lambda>m'.
                  bind_exn (call_trim m') (\<lambda>t. Inr (t \<noteq> [])))))))
       (\<lambda>c. if c then get (lit ''message'') else Inr msg)"

definition object_statusCode ::
    "(jsstring \<Rightarrow> exn + bool) \<Rightarrow> (jsstring \<Rightarrow> exn + jsval) \<Rightarrow> int \<Rightarrow> exn + int" where
  "object_statusCode has get sc =
     bind_exn
       (and_then (has (lit ''statusCode''))
          (bind_exn (get (lit ''statusCode'')) (\<lambda>s. Inr (typeof s = T_number))))
       (\<lambda>c. if c
             then bind_exn (get (lit ''statusCode''))
                    (\<lambda>s. case s of JNum n \<Rightarrow> Inr n | _ \<Rightarrow> Inr sc)
             else Inr sc)"

definition object_data ::
    "(jsstring \<Rightarrow> exn + bool) \<Rightarrow> (jsstring \<Rightarrow> exn + jsval) \<Rightarrow> jsval \<Rightarrow> exn + jsval" where
  "object_data has get d =
     bind_exn (has (lit ''data''))
       (\<lambda>c. if c then get (lit ''data'') else Inr d)"

text \<open>The branch \<^verbatim>\<open>error && typeof error === 'object'\<close>, the locals at their defaults.\<close>

definition object_branch ::
    "unknown \<Rightarrow> (jsstring \<Rightarrow> exn + bool) \<Rightarrow> (jsstring \<Rightarrow> exn + jsval) \<Rightarrow> exn + processed_error" where
  "object_branch error has get =
     bind_exn (object_message has get (JStr default_message)) (\<lambda>msg.
     bind_exn (object_statusCode has get 0) (\<lambda>sc.
     bind_exn (object_data has get JUndefined) (\<lambda>d.
       Inr \<lparr> statusCode = sc, message_of = msg, data_of = d,
             isAxiosError = False, originalError = error \<rparr>)))"

text \<open>
  \<open>processStoreError\<close>. The locals start at their defaults (\<open>0\<close>, the fallback message,
  \<^verbatim>\<open>undefined\<close>, \<open>False\<close>); the branches are tried in the order of the source. An object with
  accessors or traps is no \<^verbatim>\<open>Error\<close> and no string, is truthy and has type \<^verbatim>\<open>'object'\<close>.
\<close>

fun processStoreError :: "unknown \<Rightarrow> exn + processed_error" where
  "processStoreError (Axios_error e) =
     Inr \<lparr> statusCode =
             (case response e of None \<Rightarrow> 0
              | Some r \<Rightarrow> if status r \<noteq> 0 then status r else 0),
           message_of =
             (let m = (case response e of None \<Rightarrow> JUndefined
                       | Some r \<Rightarrow> opt_member (data r) (lit ''message''))
              in if truthy m then m
                 else if truthy (JStr (message e)) then JStr (message e)
                 else JStr server_message),
           data_of = (case response e of None \<Rightarrow> JUndefined | Some r \<Rightarrow> data r),
           isAxiosError = True,
           originalError = Axios_error e \<rparr>"
| "processStoreError (Error_object m) =
     Inr \<lparr> statusCode = 0, message_of = JStr m, data_of = JUndefined,
           isAxiosError = False, originalError = Error_object m \<rparr>"
| "processStoreError (Plain v) =
     bind_exn
       (and_then (Inr (typeof v = T_string))
          (bind_exn (call_trim v) (\<lambda>t. Inr (t \<noteq> []))))
       (\<lambda>is_string.
          if is_string
          then Inr \<lparr> statusCode = 0, message_of = v, data_of = JUndefined,
                     isAxiosError = False, originalError = Plain v \<rparr>
          else if truthy v \<and> typeof v = T_object
          then object_branch (Plain v) (\<lambda>k. in_op k v) (\<lambda>k. get_member v k)
          else Inr \<lparr> statusCode = 0, message_of = JStr default_message,
                     data_of = JUndefined, isAxiosError = False,
                     originalError = Plain v \<rparr>)"
| "processStoreError (Exotic_object has get) =
     object_branch (Exotic_object has get) has get"


section \<open>authInterceptor\<close>

subsection \<open>Module state, configuration and collaborators\<close>

text \<open>
  The module has one variable, \<^verbatim>\<open>let isCheckingAuth = false\<close>. The effects of the handlers
  on their collaborators (the store, the window, the console) are recorded in the order
  in which they happen.
\<close>

datatype effect =
    Dispatch_checkAuth
  | Dispatch_logout
  | Navigate jsstring
  | Console_error exn
  | Console_warn

record world =
  isCheckingAuth :: bool
  effects :: "effect list"

definition emit :: "effect \<Rightarrow> world \<Rightarrow> world" where
  "emit x w = w\<lparr>effects := effects w @ [x]\<rparr>"

text \<open>
  \<^verbatim>\<open>checkAuthAction\<close> with its two optional matchers,
  \<^verbatim>\<open>checkAuthAction.fulfilled?.match\<close> and \<^verbatim>\<open>checkAuthAction.rejected?.match\<close>,
  and the configuration with its two optional strings. The store and \<^verbatim>\<open>logoutAction\<close> are
  collaborators: what they do is an input of each step below.
\<close>

record thunk =
  fulfilled :: "(jsval \<Rightarrow> bool) option"
  rejected :: "(jsval \<Rightarrow> bool) option"

record auth_interceptor_config =
  checkAuthAction :: thunk
  authCheckPattern :: "jsstring option"
  loginPath :: "jsstring option"

text \<open>\<^verbatim>\<open>m?.match(a)\<close>: \<^verbatim>\<open>undefined\<close>, which is falsy, when the matcher is absent.\<close>

definition matches :: "(jsval \<Rightarrow> bool) option \<Rightarrow> jsval \<Rightarrow> bool" where
  "matches m a = (case m of None \<Rightarrow> False | Some f \<Rightarrow> f a)"

text \<open>
  The object \<open>createAuthInterceptor\<close> returns closes over the destructured configuration,
  the two defaults applied.
\<close>

record interceptor =
  the_checkAuthAction :: thunk
  the_authCheckPattern :: jsstring
  the_loginPath :: jsstring

definition createAuthInterceptor :: "auth_interceptor_config \<Rightarrow> interceptor" where
  "createAuthInterceptor c =
     \<lparr> the_checkAuthAction = checkAuthAction c,
       the_authCheckPattern =
         (case authCheckPattern c of None \<Rightarrow> lit ''/me/check'' | Some p \<Rightarrow> p),
       the_loginPath = (case loginPath c of None \<Rightarrow> lit ''/login'' | Some p \<Rightarrow> p) \<rparr>"

text \<open>
  How the call \<^verbatim>\<open>store.dispatch(action())\<close> behaves: the action creator throws, the
  dispatch throws, or the dispatch returns a promise. And how an awaited promise
  settles; a promise that never settles is one whose settling step never comes.
\<close>

datatype call = Creator_throws exn | Dispatch_throws exn | Returns_promise

datatype settle = Fulfils jsval | Rejects_with exn

text \<open>The promise an \<^verbatim>\<open>async\<close> handler returns, once it has settled.\<close>

datatype outcome = Rejected axios_error | Resolved jsval

text \<open>
  A call of \<open>onRejected\<close>: suspended at one of the two \<^verbatim>\<open>await\<close>s, or returned. A step
  runs from the call, or from the settling of the awaited promise, to the next
  \<^verbatim>\<open>await\<close> or to the return, with nothing running in between.
\<close>

datatype task =
    Awaiting_check interceptor axios_error
  | Awaiting_logout interceptor axios_error
  | Settled outcome

subsection \<open>The tests of the handlers\<close>

text \<open>\<^verbatim>\<open>error.response?.status\<close>\<close>

definition response_status :: "axios_error \<Rightarrow> jsval" where
  "response_status e = (case response e of None \<Rightarrow> JUndefined | Some r \<Rightarrow> JNum (status r))"

text \<open>\<^verbatim>\<open>s.includes(p)\<close>: \<open>p\<close> occurs in \<open>s\<close> as a contiguous run.\<close>

fun str_includes :: "jsstring \<Rightarrow> jsstring \<Rightarrow> bool" where
  "str_includes [] p = (p = [])"
| "str_includes (c # s) p = (take (length p) (c # s) = p \<or> str_includes s p)"

text \<open>\<^verbatim>\<open>error.config?.url?.includes(pattern)\<close>, as a condition.\<close>

definition url_includes :: "axios_error \<Rightarrow> jsstring \<Rightarrow> bool" where
  "url_includes e p =
     (case config e of None \<Rightarrow> False
      | Some c \<Rightarrow> (case url c of None \<Rightarrow> False | Some u \<Rightarrow> str_includes u p))"

text \<open>The \<^verbatim>\<open>catch\<close> and the \<^verbatim>\<open>finally\<close> block of the handlers.\<close>

definition catch_block :: "exn \<Rightarrow> world \<Rightarrow> world" where
  "catch_block x w = emit (Console_error x) w"

definition finally_block :: "world \<Rightarrow> world" where
  "finally_block w = w\<lparr>isCheckingAuth := False\<rparr>"

text \<open>
  The settled verification confirms that the user is not authenticated: the result
  action is matched by the rejected matcher and not by the fulfilled one, and
  \<^verbatim>\<open>resultAction.payload?.error?.statusCode === 401\<close>. Only then is the logout dispatched.
\<close>

definition confirmed_invalid :: "interceptor \<Rightarrow> settle \<Rightarrow> bool" where
  "confirmed_invalid i s =
     (case s of
        Rejects_with x \<Rightarrow> False
      | Fulfils resultAction \<Rightarrow>
          \<not> matches (fulfilled (the_checkAuthAction i)) resultAction \<and>
          matches (rejected (the_checkAuthAction i)) resultAction \<and>
          (case get_member resultAction (lit ''payload'') of
             Inl x \<Rightarrow> False
           | Inr rejectedPayload \<Rightarrow>
               opt_member (opt_member rejectedPayload (lit ''error'')) (lit ''statusCode'')
                 = JNum 401))"

subsection \<open>createAuthInterceptor: onFulfilled and onRejected\<close>

definition onFulfilled :: "'r \<Rightarrow> 'r" where
  "onFulfilled resp = resp"

text \<open>From the call of \<open>onRejected\<close> to the first \<^verbatim>\<open>await\<close>.\<close>

definition onRejected_call :: "interceptor \<Rightarrow> call \<Rightarrow> world \<Rightarrow> axios_error \<Rightarrow> task \<times> world" where
  "onRejected_call i c w e =
     (if response_status e \<noteq> JNum 401 then (Settled (Rejected e), w)
      else if url_includes e (the_authCheckPattern i) then (Settled (Rejected e), w)
      else if isCheckingAuth w then (Settled (Rejected e), w)
      else let w1 = w\<lparr>isCheckingAuth := True\<rparr> in
        (case c of
           Creator_throws x \<Rightarrow>
             (Settled (Rejected e), finally_block (catch_block x w1))
         | Dispatch_throws x \<Rightarrow>
             (Settled (Rejected e), finally_block (catch_block x (emit Dispatch_checkAuth w1)))
         | Returns_promise \<Rightarrow>
             (Awaiting_check i e, emit Dispatch_checkAuth w1)))"

text \<open>
  From the settling of \<^verbatim>\<open>await store.dispatch(checkAuthAction())\<close> to the second
  \<^verbatim>\<open>await\<close> or to the return. \<open>c\<close> is how \<^verbatim>\<open>store.dispatch(logoutAction())\<close> behaves.
\<close>

definition onRejected_check_settles ::
    "interceptor \<Rightarrow> settle \<Rightarrow> call \<Rightarrow> world \<Rightarrow> axios_error \<Rightarrow> task \<times> world" where
  "onRejected_check_settles i s c w e =
     (case s of
        Rejects_with x \<Rightarrow> (Settled (Rejected e), finally_block (catch_block x w))
      | Fulfils resultAction \<Rightarrow>
          if matches (fulfilled (the_checkAuthAction i)) resultAction
          then (Settled (Rejected e), finally_block (w\<lparr>isCheckingAuth := False\<rparr>))
          else if matches (rejected (the_checkAuthAction i)) resultAction
          then (case get_member resultAction (lit ''payload'') of
                  Inl x \<Rightarrow> (Settled (Rejected e), finally_block (catch_block x w))
                | Inr rejectedPayload \<Rightarrow>
                    if opt_member (opt_member rejectedPayload (lit ''error'')) (lit ''statusCode'')
                         = JNum 401
                    then (case c of
                            Creator_throws x \<Rightarrow>
                              (Settled (Rejected e), finally_block (catch_block x w))
                          | Dispatch_throws x \<Rightarrow>
                              (Settled (Rejected e),
                               finally_block (catch_block x (emit Dispatch_logout w)))
                          | Returns_promise \<Rightarrow>
                              (Awaiting_logout i e, emit Dispatch_logout w))
                    else (Settled (Rejected e), finally_block w))
          else (Settled (Rejected e), finally_block w))"

text \<open>
  From the settling of \<^verbatim>\<open>await store.dispatch(logoutAction())\<close> to the return. \<open>window\<close> is
  \<^verbatim>\<open>window.location.pathname\<close>, or \<open>None\<close> where \<^verbatim>\<open>typeof window\<close> is \<^verbatim>\<open>'undefined'\<close>.
\<close>

definition onRejected_logout_settles ::
    "interceptor \<Rightarrow> settle \<Rightarrow> jsstring option \<Rightarrow> world \<Rightarrow> axios_error \<Rightarrow> task \<times> world" where
  "onRejected_logout_settles i s window w e =
     (case s of
        Rejects_with x \<Rightarrow> (Settled (Rejected e), finally_block (catch_block x w))
      | Fulfils v \<Rightarrow>
          (Settled (Rejected e),
           finally_block
             (case window of
                None \<Rightarrow> w
              | Some pathname \<Rightarrow>
                  if pathname \<noteq> the_loginPath i then emit (Navigate (the_loginPath i)) w
                  else w)))"

text \<open>
  One call of \<open>onRejected\<close> run on its own, the collaborators' answers given: how the two
  dispatch calls behave, how their promises settle (\<open>None\<close>: never), and the window. The
  call ends returned, or suspended for ever at an \<^verbatim>\<open>await\<close>.
\<close>

record collaborators =
  check_call :: call
  check_settle :: "settle option"
  logout_call :: call
  logout_settle :: "settle option"
  window_pathname :: "jsstring option"

definition after_logout :: "interceptor \<Rightarrow> collaborators \<Rightarrow> task \<times> world \<Rightarrow> axios_error \<Rightarrow> task \<times> world" where
  "after_logout i env tw e =
     (case tw of
        (Awaiting_logout i' e', w) \<Rightarrow>
          (case logout_settle env of
             None \<Rightarrow> tw
           | Some s \<Rightarrow> onRejected_logout_settles i s (window_pathname env) w e)
      | _ \<Rightarrow> tw)"

definition after_check :: "interceptor \<Rightarrow> collaborators \<Rightarrow> task \<times> world \<Rightarrow> axios_error \<Rightarrow> task \<times> world" where
  "after_check i env tw e =
     (case tw of
        (Awaiting_check i' e', w) \<Rightarrow>
          (case check_settle env of
             None \<Rightarrow> tw
           | Some s \<Rightarrow>
               after_logout i env (onRejected_check_settles i s (logout_call env) w e) e)
      | _ \<Rightarrow> tw)"

definition onRejected :: "interceptor \<Rightarrow> collaborators \<Rightarrow> world \<Rightarrow> axios_error \<Rightarrow> task \<times> world" where
  "onRejected i env w e = after_check i env (onRejected_call i (check_call env) w e) e"

subsection \<open>createAuthInterceptorLegacy\<close>

text \<open>The legacy handler has no \<^verbatim>\<open>await\<close>: a call is one step.\<close>

definition legacy_onRejected :: "world \<Rightarrow> axios_error \<Rightarrow> task \<times> world" where
  "legacy_onRejected w e =
     (if response_status e \<noteq> JNum 401 then (Settled (Rejected e), w)
      else if url_includes e (lit ''/me/check'') then (Settled (Rejected e), w)
      else if isCheckingAuth w then (Settled (Rejected e), w)
      else (Settled (Rejected e),
            finally_block (emit Console_warn (w\<lparr>isCheckingAuth := True\<rparr>))))"

subsection \<open>Interleaved calls\<close>

text \<open>
  JavaScript runs one step at a time. The handlers of any number of interceptor objects
  share the module's variable; the calls in progress are kept in a list, a call being
  named by its position. An event is a failed exchange handed to a handler, or the
  settling of the promise a suspended call awaits; the settling of a promise nobody
  awaits changes nothing.
\<close>

datatype handler = Configured interceptor | Legacy

datatype event =
    Fails handler axios_error call
  | Check_settles nat settle call
  | Logout_settles nat settle "jsstring option"

record system =
  shared :: world
  tasks :: "task list"

definition initial :: system where
  "initial = \<lparr> shared = \<lparr> isCheckingAuth = False, effects = [] \<rparr>, tasks = [] \<rparr>"

definition spawn :: "system \<Rightarrow> task \<times> world \<Rightarrow> system" where
  "spawn s tw = \<lparr> shared = snd tw, tasks = tasks s @ [fst tw] \<rparr>"

definition resume :: "system \<Rightarrow> nat \<Rightarrow> task \<times> world \<Rightarrow> system" where
  "resume s n tw = \<lparr> shared = snd tw, tasks = (tasks s)[n := fst tw] \<rparr>"

fun step :: "event \<Rightarrow> system \<Rightarrow> system" where
  "step (Fails (Configured i) e c) s = spawn s (onRejected_call i c (shared s) e)"
| "step (Fails Legacy e c) s = spawn s (legacy_onRejected (shared s) e)"
| "step (Check_settles n st c) s =
     (if n < length (tasks s)
      then (case tasks s ! n of
              Awaiting_check i e \<Rightarrow> resume s n (onRejected_check_settles i st c (shared s) e)
            | _ \<Rightarrow> s)
      else s)"
| "step (Logout_settles n st window) s =
     (if n < length (tasks s)
      then (case tasks s ! n of
              Awaiting_logout i e \<Rightarrow>
                resume s n (onRejected_logout_settles i st window (shared s) e)
            | _ \<Rightarrow> s)
      else s)"

definition run :: "event list \<Rightarrow> system \<Rightarrow> system" where
  "run evs s = fold step evs s"

text \<open>A verification is in flight while a call is suspended at the first \<^verbatim>\<open>await\<close>.\<close>

fun awaiting_check :: "task \<Rightarrow> bool" where
  "awaiting_check (Awaiting_check i e) = True"
| "awaiting_check t = False"

fun suspended :: "task \<Rightarrow> bool" where
  "suspended (Settled r) = False"
| "suspended t = True"


definition dispatches :: "world \<Rightarrow> nat" where
  "dispatches w = count_list (effects w) Dispatch_checkAuth"


text \<open>
  The guard's invariant: the variable is set exactly while one call is suspended at an
  \<^verbatim>\<open>await\<close>, and no two calls are suspended together.
\<close>

definition guard_inv :: "system \<Rightarrow> bool" where
  "guard_inv s =
     (length (filter suspended (tasks s)) = (if isCheckingAuth (shared s) then 1 else 0))"


section \<open>Example values\<close>

text \<open>A validation failure as a Laravel backend reports it.\<close>

definition validation_body :: jsval where
  "validation_body =
     JObj [(lit ''message'', JStr (lit ''Validation failed'')),
           (lit ''errors'', JObj [(lit ''email'', JArr [JStr (lit ''required'')])])]"

definition validation_failure :: axios_error where
  "validation_failure =
     \<lparr> message = lit ''Request failed with status code 422'',
       response = Some \<lparr> status = 422, data = validation_body \<rparr>,
       config = None \<rparr>"






text \<open>
  An interceptor with the default pattern and login path, whose thunk matches result
  actions by their \<^verbatim>\<open>type\<close>, as the matchers of a Redux Toolkit thunk do; and one with a
  configuration of its own.
\<close>

definition example_thunk :: thunk where
  "example_thunk =
     \<lparr> fulfilled = Some (\<lambda>a. prop_of a (lit ''type'') = JStr (lit ''auth/check/fulfilled'')),
       rejected = Some (\<lambda>a. prop_of a (lit ''type'') = JStr (lit ''auth/check/rejected'')) \<rparr>"

definition example_interceptor :: interceptor where
  "example_interceptor =
     createAuthInterceptor
       \<lparr> checkAuthAction = example_thunk, authCheckPattern = None, loginPath = None \<rparr>"

definition other_interceptor :: interceptor where
  "other_interceptor =
     createAuthInterceptor
       \<lparr> checkAuthAction = \<lparr> fulfilled = None, rejected = None \<rparr>,
         authCheckPattern = Some (lit ''/session''), loginPath = Some (lit ''/signin'') \<rparr>"

text \<open>Three failed exchanges: a 401, a 403, and a 401 of the verification endpoint.\<close>

definition unauthorized :: axios_error where
  "unauthorized =
     \<lparr> message = lit ''Request failed with status code 401'',
       response = Some \<lparr> status = 401, data = JNull \<rparr>,
       config = Some \<lparr> url = Some (lit ''/orders'') \<rparr> \<rparr>"

definition forbidden :: axios_error where
  "forbidden =
     \<lparr> message = lit ''Request failed with status code 403'',
       response = Some \<lparr> status = 403, data = JNull \<rparr>,
       config = Some \<lparr> url = Some (lit ''/orders'') \<rparr> \<rparr>"

definition check_unauthorized :: axios_error where
  "check_unauthorized =
     \<lparr> message = lit ''Request failed with status code 401'',
       response = Some \<lparr> status = 401, data = JNull \<rparr>,
       config = Some \<lparr> url = Some (lit ''/api/v1/me/check'') \<rparr> \<rparr>"

text \<open>The two result actions of the verification.\<close>

definition session_valid :: jsval where
  "session_valid = JObj [(lit ''type'', JStr (lit ''auth/check/fulfilled''))]"

definition session_expired :: jsval where
  "session_expired =
     JObj [(lit ''type'', JStr (lit ''auth/check/rejected'')),
           (lit ''payload'', JObj [(lit ''error'', JObj [(lit ''statusCode'', JNum 401)])])]"

definition idle :: world where
  "idle = \<lparr> isCheckingAuth = False, effects = [] \<rparr>"

text \<open>
  Collaborators: the session has expired and the logout dispatch rejects; the session has
  expired and the logout dispatch fulfils; the session is still valid. The window is at
  \<^verbatim>\<open>/dashboard\<close>.
\<close>

definition logout_fails :: collaborators where
  "logout_fails =
     \<lparr> check_call = Returns_promise, check_settle = Some (Fulfils session_expired),
       logout_call = Returns_promise, logout_settle = Some (Rejects_with TypeError),
       window_pathname = Some (lit ''/dashboard'') \<rparr>"

definition logout_succeeds :: collaborators where
  "logout_succeeds =
     \<lparr> check_call = Returns_promise, check_settle = Some (Fulfils session_expired),
       logout_call = Returns_promise, logout_settle = Some (Fulfils JUndefined),
       window_pathname = Some (lit ''/dashboard'') \<rparr>"

definition still_valid :: collaborators where
  "still_valid =
     \<lparr> check_call = Returns_promise, check_settle = Some (Fulfils session_valid),
       logout_call = Returns_promise, logout_settle = Some (Fulfils JUndefined),
       window_pathname = Some (lit ''/dashboard'') \<rparr>"

text \<open>
  The promise of the logout dispatch never settles: once with the session expired, once
  with the session still valid (no logout is dispatched then).
\<close>

definition valid_logout_hangs :: collaborators where
  "valid_logout_hangs =
     \<lparr> check_call = Returns_promise, check_settle = Some (Fulfils session_valid),
       logout_call = Returns_promise, logout_settle = None,
       window_pathname = Some (lit ''/dashboard'') \<rparr>"

definition logout_hangs :: collaborators where
  "logout_hangs =
     \<lparr> check_call = Returns_promise, check_settle = Some (Fulfils session_expired),
       logout_call = Returns_promise, logout_settle = None,
       window_pathname = Some (lit ''/dashboard'') \<rparr>"



definition verification_started :: "event list" where
  "verification_started = [Fails (Configured example_interceptor) unauthorized Returns_promise]"

section \<open>Properties of processStoreError\<close>

lemma bind_exn_Inr [simp]: "bind_exn (Inr x) f = f x"
  by (simp add: bind_exn_def)

lemma bind_exn_Inl [simp]: "bind_exn (Inl e) f = Inl e"
  by (simp add: bind_exn_def)

text \<open>Trimming leaves nothing exactly when every code unit is white space.\<close>

lemma trim_Nil_iff: "trim s = [] \<longleftrightarrow> list_all is_ws s"
proof
  assume "trim s = []"
  then have a: "\<forall>x\<in>set (dropWhile is_ws s). is_ws x"
    unfolding trim_def by (simp only: rev_is_Nil_conv dropWhile_eq_Nil_conv set_rev)
  show "list_all is_ws s"
  proof (cases "dropWhile is_ws s")
    case Nil
    then show ?thesis by (simp add: dropWhile_eq_Nil_conv list_all_iff)
  next
    case (Cons x xs)
    then have "\<not> is_ws (hd (dropWhile is_ws s))" by (metis hd_dropWhile list.distinct(1))
    with a Cons show ?thesis by simp
  qed
next
  assume "list_all is_ws s"
  then have "dropWhile is_ws s = []" by (simp add: dropWhile_eq_Nil_conv list_all_iff)
  then show "trim s = []" by (simp only: trim_def rev.simps dropWhile.simps)
qed

lemma typeof_string_iff: "typeof m = T_string \<longleftrightarrow> (\<exists>s. m = JStr s)"
  by (cases m) simp_all

lemma typeof_number_iff: "typeof m = T_number \<longleftrightarrow> (\<exists>n. m = JNum n)"
  by (cases m) simp_all











text \<open>
  C8. For an \<^verbatim>\<open>AxiosError\<close> that carries a response, the status code is the response's,
  the data is the response body, and the message is the body's \<^verbatim>\<open>message\<close> field when that
  field is truthy (for a string: present and not empty), else the error's own message
  when not empty, else a fixed fallback string.
\<close>

theorem processStoreError_axios_response:
  assumes "response e = Some r"
  shows "\<exists>p. processStoreError (Axios_error e) = Inr p \<and>
          statusCode p = status r \<and>
          data_of p = data r \<and>
          message_of p =
            (if truthy (opt_member (data r) (lit ''message''))
             then opt_member (data r) (lit ''message'')
             else if message e \<noteq> [] then JStr (message e)
             else JStr server_message) \<and>
          (\<forall>kvs s. data r = JObj kvs \<longrightarrow>
             map_of kvs (lit ''message'') = Some (JStr s) \<longrightarrow> s \<noteq> [] \<longrightarrow>
             message_of p = JStr s) \<and>
          (\<forall>kvs. data r = JObj kvs \<longrightarrow>
             map_of kvs (lit ''message'') = None \<or>
             map_of kvs (lit ''message'') = Some (JStr []) \<longrightarrow>
             message_of p = (if message e \<noteq> [] then JStr (message e) else JStr server_message))"
  using assms by (auto simp: opt_member_def Let_def)

theorem processStoreError_axios_response_witness:
  "response validation_failure = Some \<lparr> status = 422, data = validation_body \<rparr> \<and>
   (\<exists>p. processStoreError (Axios_error validation_failure) = Inr p \<and>
        statusCode p = 422 \<and> message_of p = JStr (lit ''Validation failed'') \<and>
        data_of p = validation_body)"
  using processStoreError_axios_response
    [of validation_failure "\<lparr> status = 422, data = validation_body \<rparr>"]
  by (auto simp: validation_failure_def validation_body_def opt_member_def lit_def)

text \<open>
  C9, as the code has it. The test of the source is \<^verbatim>\<open>error.trim() !== ''\<close>: for every
  string the status code is 0, and the message is the string itself when it holds a
  code unit that is not white space; for the empty string and for a string of white
  space only it is the fallback message.
\<close>

theorem processStoreError_string:
  "processStoreError (Plain (JStr s)) =
     Inr \<lparr> statusCode = 0,
           message_of = (if list_all is_ws s then JStr default_message else JStr s),
           data_of = JUndefined, isAxiosError = False, originalError = Plain (JStr s) \<rparr>"
  by (simp add: and_then_def trim_Nil_iff)

theorem processStoreError_string_witness:
  "processStoreError (Plain (JStr (lit ''Network down''))) =
     Inr \<lparr> statusCode = 0, message_of = JStr (lit ''Network down''),
           data_of = JUndefined, isAxiosError = False,
           originalError = Plain (JStr (lit ''Network down'')) \<rparr>"
  using processStoreError_string [of "lit ''Network down''"]
  by (simp add: lit_def is_ws_def)

text \<open>
  The string of two spaces is not empty, and its message is the fallback, not the string.
\<close>

theorem processStoreError_blank_string_counterexample:
  "lit ''  '' \<noteq> [] \<and>
   processStoreError (Plain (JStr (lit ''  ''))) =
     Inr \<lparr> statusCode = 0, message_of = JStr default_message,
           data_of = JUndefined, isAxiosError = False,
           originalError = Plain (JStr (lit ''  '')) \<rparr> \<and>
   JStr default_message \<noteq> JStr (lit ''  '')"
  by (simp add: lit_def and_then_def trim_def is_ws_def default_message_def)

section \<open>Properties of the handlers\<close>

subsection \<open>Single steps\<close>

lemma isCheckingAuth_emit [simp]: "isCheckingAuth (emit x w) = isCheckingAuth w"
  by (simp add: emit_def)

lemma isCheckingAuth_catch [simp]: "isCheckingAuth (catch_block x w) = isCheckingAuth w"
  by (simp add: catch_block_def)

lemma isCheckingAuth_finally [simp]: "isCheckingAuth (finally_block w) = False"
  by (simp add: finally_block_def)

lemma effects_finally [simp]: "effects (finally_block w) = effects w"
  by (simp add: finally_block_def)

lemma effects_emit [simp]: "effects (emit x w) = effects w @ [x]"
  by (simp add: emit_def)

lemma effects_catch [simp]: "effects (catch_block x w) = effects w @ [Console_error x]"
  by (simp add: catch_block_def)

lemma onRejected_call_cases:
  "onRejected_call i c w e = (t, w') \<Longrightarrow>
     (t = Settled (Rejected e) \<and> isCheckingAuth w' = isCheckingAuth w) \<or>
     (t = Awaiting_check i e \<and> \<not> isCheckingAuth w \<and> isCheckingAuth w')"
  by (auto simp: onRejected_call_def Let_def split: if_splits call.splits)

lemma onRejected_call_guarded:
  "isCheckingAuth w \<Longrightarrow> onRejected_call i c w e = (Settled (Rejected e), w)"
  by (simp add: onRejected_call_def)

lemma legacy_onRejected_cases:
  "legacy_onRejected w e = (t, w') \<Longrightarrow>
     t = Settled (Rejected e) \<and> isCheckingAuth w' = isCheckingAuth w"
  by (auto simp: legacy_onRejected_def split: if_splits)

lemma legacy_onRejected_guarded:
  "isCheckingAuth w \<Longrightarrow> legacy_onRejected w e = (Settled (Rejected e), w)"
  by (simp add: legacy_onRejected_def)

lemma onRejected_check_settles_cases:
  "onRejected_check_settles i s c w e = (t, w') \<Longrightarrow>
     (t = Settled (Rejected e) \<and> \<not> isCheckingAuth w') \<or>
     (t = Awaiting_logout i e \<and> isCheckingAuth w' = isCheckingAuth w)"
  by (auto simp: onRejected_check_settles_def
           split: settle.splits if_splits sum.splits call.splits)

lemma onRejected_logout_settles_cases:
  "onRejected_logout_settles i s win w e = (t, w') \<Longrightarrow>
     t = Settled (Rejected e) \<and> \<not> isCheckingAuth w'"
  by (auto simp: onRejected_logout_settles_def split: settle.splits)

lemma world_updates [simp]:
  "(w::world)\<lparr>isCheckingAuth := b, effects := xs\<rparr> = \<lparr> isCheckingAuth = b, effects = xs \<rparr>"
  "(w::world)\<lparr>effects := xs, isCheckingAuth := b\<rparr> = \<lparr> isCheckingAuth = b, effects = xs \<rparr>"
  "(w::world)\<lparr>isCheckingAuth := b\<rparr> = \<lparr> isCheckingAuth = b, effects = effects w \<rparr>"
  "(w::world)\<lparr>effects := xs\<rparr> = \<lparr> isCheckingAuth = isCheckingAuth w, effects = xs \<rparr>"
  by (cases w, simp)+

text \<open>\<open>str_includes\<close> is the substring test.\<close>

lemma str_includes_iff: "str_includes s p \<longleftrightarrow> (\<exists>xs ys. s = xs @ p @ ys)"
proof (induction s)
  case Nil
  then show ?case by auto
next
  case (Cons c s)
  show ?case
  proof
    assume "str_includes (c # s) p"
    then consider "take (length p) (c # s) = p" | "str_includes s p" by auto
    then show "\<exists>xs ys. c # s = xs @ p @ ys"
    proof cases
      case 1
      then have "c # s = [] @ p @ drop (length p) (c # s)"
        by (metis append_Nil append_take_drop_id)
      then show ?thesis by blast
    next
      case 2
      with Cons.IH obtain xs ys where "s = xs @ p @ ys" by blast
      then have "c # s = (c # xs) @ p @ ys" by simp
      then show ?thesis by blast
    qed
  next
    assume "\<exists>xs ys. c # s = xs @ p @ ys"
    then obtain xs ys where eq: "c # s = xs @ p @ ys" by blast
    show "str_includes (c # s) p"
    proof (cases xs)
      case Nil
      with eq have "take (length p) (c # s) = p" by simp
      then show ?thesis by simp
    next
      case (Cons x xs')
      with eq have "s = xs' @ p @ ys" by simp
      with Cons.IH have "str_includes s p" by blast
      then show ?thesis by simp
    qed
  qed
qed

text \<open>The result of each path through the second and the third step.\<close>

lemma check_settles_fulfilled:
  "matches (fulfilled (the_checkAuthAction i)) a \<Longrightarrow>
     onRejected_check_settles i (Fulfils a) c w e =
       (Settled (Rejected e), \<lparr> isCheckingAuth = False, effects = effects w \<rparr>)"
  by (simp add: onRejected_check_settles_def finally_block_def)

lemma check_settles_other_reason:
  assumes "\<not> matches (fulfilled (the_checkAuthAction i)) a"
    "matches (rejected (the_checkAuthAction i)) a"
    "get_member a (lit ''payload'') = Inr p"
    "opt_member (opt_member p (lit ''error'')) (lit ''statusCode'') \<noteq> JNum 401"
  shows "onRejected_check_settles i (Fulfils a) c w e =
     (Settled (Rejected e), \<lparr> isCheckingAuth = False, effects = effects w \<rparr>)"
  using assms by (simp add: onRejected_check_settles_def finally_block_def)

lemma check_settles_confirmed_invalid:
  assumes "\<not> matches (fulfilled (the_checkAuthAction i)) a"
    "matches (rejected (the_checkAuthAction i)) a"
    "get_member a (lit ''payload'') = Inr p"
    "opt_member (opt_member p (lit ''error'')) (lit ''statusCode'') = JNum 401"
  shows "onRejected_check_settles i (Fulfils a) c w e =
     (case c of
        Creator_throws x \<Rightarrow>
          (Settled (Rejected e),
           \<lparr> isCheckingAuth = False, effects = effects w @ [Console_error x] \<rparr>)
      | Dispatch_throws x \<Rightarrow>
          (Settled (Rejected e),
           \<lparr> isCheckingAuth = False,
             effects = effects w @ [Dispatch_logout, Console_error x] \<rparr>)
      | Returns_promise \<Rightarrow>
          (Awaiting_logout i e,
           \<lparr> isCheckingAuth = isCheckingAuth w, effects = effects w @ [Dispatch_logout] \<rparr>))"
  using assms
  by (simp add: onRejected_check_settles_def finally_block_def catch_block_def emit_def
        split: call.splits)

lemma logout_settles_result:
  "onRejected_logout_settles i s win w e =
     (Settled (Rejected e),
      \<lparr> isCheckingAuth = False,
        effects = effects w @
          (case s of
             Rejects_with x \<Rightarrow> [Console_error x]
           | Fulfils v \<Rightarrow>
               (case win of None \<Rightarrow> []
                | Some pathname \<Rightarrow>
                    if pathname \<noteq> the_loginPath i then [Navigate (the_loginPath i)] else [])) \<rparr>)"
  by (simp add: onRejected_logout_settles_def finally_block_def catch_block_def emit_def
        split: settle.splits option.splits)

subsection \<open>One call run on its own\<close>

lemma onRejected_verifies:
  assumes "\<not> isCheckingAuth w" "response_status e = JNum 401"
    "\<not> url_includes e (the_authCheckPattern i)"
    "check_call env = Returns_promise" "check_settle env = Some s"
  shows "onRejected i env w e =
     after_logout i env
       (onRejected_check_settles i s (logout_call env)
          \<lparr> isCheckingAuth = True, effects = effects w @ [Dispatch_checkAuth] \<rparr> e) e"
  using assms by (simp add: onRejected_def onRejected_call_def after_check_def emit_def)


text \<open>When each step suspends, and when a call run on its own does.\<close>

lemma onRejected_call_task:
  "fst (onRejected_call i c w e) =
     (if response_status e = JNum 401 \<and> \<not> url_includes e (the_authCheckPattern i) \<and>
         \<not> isCheckingAuth w \<and> c = Returns_promise
      then Awaiting_check i e else Settled (Rejected e))"
  by (cases c) (simp_all add: onRejected_call_def)

lemma onRejected_check_settles_task:
  "fst (onRejected_check_settles i s c w e) =
     (if confirmed_invalid i s \<and> c = Returns_promise
      then Awaiting_logout i e else Settled (Rejected e))"
  by (cases c; cases s)
     (simp_all add: onRejected_check_settles_def confirmed_invalid_def split: sum.splits)

lemma onRejected_task:
  "fst (onRejected i env w e) =
     (if response_status e = JNum 401 \<and> \<not> url_includes e (the_authCheckPattern i) \<and>
         \<not> isCheckingAuth w \<and> check_call env = Returns_promise
      then (case check_settle env of
              None \<Rightarrow> Awaiting_check i e
            | Some s \<Rightarrow>
                if confirmed_invalid i s \<and> logout_call env = Returns_promise \<and>
                   logout_settle env = None
                then Awaiting_logout i e else Settled (Rejected e))
      else Settled (Rejected e))"
proof -
  obtain t w1 where c: "onRejected_call i (check_call env) w e = (t, w1)"
    by (cases "onRejected_call i (check_call env) w e")
  with onRejected_call_task [of i "check_call env" w e]
  have t: "t = (if response_status e = JNum 401 \<and>
         \<not> url_includes e (the_authCheckPattern i) \<and>
         \<not> isCheckingAuth w \<and> check_call env = Returns_promise
      then Awaiting_check i e else Settled (Rejected e))"
    by simp
  show ?thesis
  proof (cases "check_settle env")
    case None
    with c t show ?thesis by (simp add: onRejected_def after_check_def)
  next
    case (Some s)
    obtain t2 w2 where d: "onRejected_check_settles i s (logout_call env) w1 e = (t2, w2)"
      by (cases "onRejected_check_settles i s (logout_call env) w1 e")
    with onRejected_check_settles_task [of i s "logout_call env" w1 e]
    have t2: "t2 = (if confirmed_invalid i s \<and> logout_call env = Returns_promise
      then Awaiting_logout i e else Settled (Rejected e))"
      by simp
    from c t d t2 Some show ?thesis
      by (cases "logout_settle env")
         (simp_all add: onRejected_def after_check_def after_logout_def logout_settles_result)
  qed
qed

subsection \<open>The invariant of the guard\<close>

lemma filter_update_length:
  "n < length ts \<Longrightarrow>
     length (filter P (ts[n := t])) + (if P (ts ! n) then 1 else 0) =
     length (filter P ts) + (if P t then 1 else 0)"
proof (induction ts arbitrary: n)
  case Nil
  then show ?case by simp
next
  case (Cons a ts)
  show ?case
  proof (cases n)
    case 0
    then show ?thesis by simp
  next
    case (Suc m)
    with Cons.prems have "m < length ts" by simp
    from Cons.IH [OF this] Suc show ?thesis by simp
  qed
qed

lemma guard_inv_initial: "guard_inv initial"
  by (simp add: guard_inv_def initial_def)

lemma guard_inv_spawn_call:
  assumes "guard_inv s"
  shows "guard_inv (spawn s (onRejected_call i c (shared s) e))"
proof -
  obtain t w' where tw: "onRejected_call i c (shared s) e = (t, w')"
    by (cases "onRejected_call i c (shared s) e")
  from onRejected_call_cases [OF tw] assms show ?thesis
    by (auto simp: guard_inv_def spawn_def tw split: if_splits)
qed

lemma guard_inv_spawn_legacy:
  assumes "guard_inv s"
  shows "guard_inv (spawn s (legacy_onRejected (shared s) e))"
proof -
  obtain t w' where tw: "legacy_onRejected (shared s) e = (t, w')"
    by (cases "legacy_onRejected (shared s) e")
  from legacy_onRejected_cases [OF tw] assms show ?thesis
    by (auto simp: guard_inv_def spawn_def tw split: if_splits)
qed

lemma guard_inv_resume_check:
  assumes "guard_inv s" and n: "n < length (tasks s)" and a: "tasks s ! n = Awaiting_check i e"
  shows "guard_inv (resume s n (onRejected_check_settles i st c (shared s) e))"
proof -
  obtain t w' where tw: "onRejected_check_settles i st c (shared s) e = (t, w')"
    by (cases "onRejected_check_settles i st c (shared s) e")
  from filter_update_length [OF n, of suspended t] a
  have len: "length (filter suspended ((tasks s)[n := t])) + 1 =
             length (filter suspended (tasks s)) + (if suspended t then 1 else 0)"
    by simp
  from onRejected_check_settles_cases [OF tw] assms(1) len show ?thesis
    by (auto simp: guard_inv_def resume_def tw split: if_splits)
qed

lemma guard_inv_resume_logout:
  assumes "guard_inv s" and n: "n < length (tasks s)" and a: "tasks s ! n = Awaiting_logout i e"
  shows "guard_inv (resume s n (onRejected_logout_settles i st win (shared s) e))"
proof -
  obtain t w' where tw: "onRejected_logout_settles i st win (shared s) e = (t, w')"
    by (cases "onRejected_logout_settles i st win (shared s) e")
  from filter_update_length [OF n, of suspended t] a
  have len: "length (filter suspended ((tasks s)[n := t])) + 1 =
             length (filter suspended (tasks s)) + (if suspended t then 1 else 0)"
    by simp
  from onRejected_logout_settles_cases [OF tw] assms(1) len show ?thesis
    by (auto simp: guard_inv_def resume_def tw split: if_splits)
qed

lemma guard_inv_step: "guard_inv s \<Longrightarrow> guard_inv (step ev s)"
proof (cases ev)
  case (Fails h e c)
  assume "guard_inv s"
  with Fails show ?thesis
    by (cases h) (simp_all add: guard_inv_spawn_call guard_inv_spawn_legacy)
next
  case (Check_settles n st c)
  assume "guard_inv s"
  with Check_settles show ?thesis
    by (auto simp: guard_inv_resume_check split: task.splits)
next
  case (Logout_settles n st win)
  assume "guard_inv s"
  with Logout_settles show ?thesis
    by (auto simp: guard_inv_resume_logout split: task.splits)
qed

lemma guard_inv_run: "guard_inv s \<Longrightarrow> guard_inv (run evs s)"
  unfolding run_def by (induction evs arbitrary: s) (simp_all add: guard_inv_step)

lemma guard_inv_reachable: "guard_inv (run evs initial)"
  by (rule guard_inv_run [OF guard_inv_initial])



lemma suspended_guard:
  assumes "guard_inv s" "n < length (tasks s)" "suspended (tasks s ! n)"
  shows "isCheckingAuth (shared s)"
proof (rule ccontr)
  assume "\<not> isCheckingAuth (shared s)"
  with assms(1) have "filter suspended (tasks s) = []" by (simp add: guard_inv_def)
  then have "\<forall>t\<in>set (tasks s). \<not> suspended t" by (simp add: filter_empty_conv)
  with assms(2,3) show False by (meson nth_mem)
qed



lemma dispatches_emit_other [simp]:
  "x \<noteq> Dispatch_checkAuth \<Longrightarrow> dispatches (emit x w) = dispatches w"
  by (simp add: dispatches_def emit_def)





lemma step_never_resolves:
  assumes "Settled (Resolved v) \<notin> set (tasks s)"
  shows "Settled (Resolved v) \<notin> set (tasks (step ev s))"
proof (cases ev)
  case (Fails h e c)
  show ?thesis
  proof (cases h)
    case (Configured i)
    obtain t w' where r: "onRejected_call i c (shared s) e = (t, w')"
      by (cases "onRejected_call i c (shared s) e")
    from onRejected_call_cases [OF r] assms Fails Configured r show ?thesis
      by (auto simp: spawn_def)
  next
    case Legacy
    obtain t w' where r: "legacy_onRejected (shared s) e = (t, w')"
      by (cases "legacy_onRejected (shared s) e")
    from legacy_onRejected_cases [OF r] assms Fails Legacy r show ?thesis
      by (auto simp: spawn_def)
  qed
next
  case (Check_settles m st c)
  show ?thesis
  proof (cases "m < length (tasks s) \<and> awaiting_check (tasks s ! m)")
    case True
    then obtain i e where a: "tasks s ! m = Awaiting_check i e"
      by (cases "tasks s ! m") simp_all
    obtain t w' where r: "onRejected_check_settles i st c (shared s) e = (t, w')"
      by (cases "onRejected_check_settles i st c (shared s) e")
    from True a r Check_settles have st: "tasks (step ev s) = (tasks s)[m := t]"
      by (simp add: resume_def)
    from onRejected_check_settles_cases [OF r] have "t \<noteq> Settled (Resolved v)" by auto
    with assms st set_update_subset_insert [of "tasks s" m t] show ?thesis by auto
  next
    case False
    with Check_settles have "step ev s = s"
      by (cases "tasks s ! m") simp_all
    with assms show ?thesis by simp
  qed
next
  case (Logout_settles m st win)
  show ?thesis
  proof (cases "m < length (tasks s) \<and> (\<exists>i e. tasks s ! m = Awaiting_logout i e)")
    case True
    then obtain i e where a: "tasks s ! m = Awaiting_logout i e" by blast
    from True a Logout_settles
    have "tasks (step ev s) = (tasks s)[m := Settled (Rejected e)]"
      by (simp add: resume_def logout_settles_result)
    with assms set_update_subset_insert [of "tasks s" m "Settled (Rejected e)"]
    show ?thesis by auto
  next
    case False
    with Logout_settles have "step ev s = s"
      by (cases "tasks s ! m") auto
    with assms show ?thesis by simp
  qed
qed

lemma run_never_resolves:
  "Settled (Resolved v) \<notin> set (tasks s) \<Longrightarrow> Settled (Resolved v) \<notin> set (tasks (run evs s))"
  unfolding run_def by (induction evs arbitrary: s) (simp_all add: step_never_resolves)

lemma reachable_never_resolves: "Settled (Resolved v) \<notin> set (tasks (run evs initial))"
  by (rule run_never_resolves) (simp add: initial_def)

subsection \<open>The examples\<close>

lemmas example_defs =
  example_thunk_def example_interceptor_def unauthorized_def session_valid_def
  session_expired_def idle_def logout_fails_def logout_succeeds_def still_valid_def
  createAuthInterceptor_def

lemma unauthorized_qualifies:
  "response_status unauthorized = JNum 401 \<and>
   \<not> url_includes unauthorized (the_authCheckPattern example_interceptor)"
  by (simp add: example_defs response_status_def url_includes_def lit_def)

lemma session_expired_facts:
  "\<not> matches (fulfilled (the_checkAuthAction example_interceptor)) session_expired \<and>
   matches (rejected (the_checkAuthAction example_interceptor)) session_expired \<and>
   get_member session_expired (lit ''payload'') =
     Inr (JObj [(lit ''error'', JObj [(lit ''statusCode'', JNum 401)])]) \<and>
   opt_member (opt_member (JObj [(lit ''error'', JObj [(lit ''statusCode'', JNum 401)])])
     (lit ''error'')) (lit ''statusCode'') = JNum 401"
  by (simp add: example_defs matches_def get_member_def opt_member_def lit_def)

lemma logout_succeeds_run:
  "onRejected example_interceptor logout_succeeds idle unauthorized =
     (Settled (Rejected unauthorized),
      \<lparr> isCheckingAuth = False,
        effects = [Dispatch_checkAuth, Dispatch_logout, Navigate (lit ''/login'')] \<rparr>)"
proof -
  have "onRejected example_interceptor logout_succeeds idle unauthorized =
     after_logout example_interceptor logout_succeeds
       (onRejected_check_settles example_interceptor (Fulfils session_expired)
          (logout_call logout_succeeds)
          \<lparr> isCheckingAuth = True, effects = effects idle @ [Dispatch_checkAuth] \<rparr>
          unauthorized) unauthorized"
    using unauthorized_qualifies
    by (intro onRejected_verifies) (simp_all add: idle_def logout_succeeds_def)
  also have "\<dots> = (Settled (Rejected unauthorized),
      \<lparr> isCheckingAuth = False,
        effects = [Dispatch_checkAuth, Dispatch_logout, Navigate (lit ''/login'')] \<rparr>)"
    using session_expired_facts
    by (simp add: check_settles_confirmed_invalid after_logout_def logout_settles_result
          logout_succeeds_def idle_def)
       (simp add: example_interceptor_def createAuthInterceptor_def lit_def)
  finally show ?thesis .
qed

lemma logout_hangs_run:
  "onRejected example_interceptor logout_hangs idle unauthorized =
     (Awaiting_logout example_interceptor unauthorized,
      \<lparr> isCheckingAuth = True, effects = [Dispatch_checkAuth, Dispatch_logout] \<rparr>)"
proof -
  have "onRejected example_interceptor logout_hangs idle unauthorized =
     after_logout example_interceptor logout_hangs
       (onRejected_check_settles example_interceptor (Fulfils session_expired)
          (logout_call logout_hangs)
          \<lparr> isCheckingAuth = True, effects = effects idle @ [Dispatch_checkAuth] \<rparr>
          unauthorized) unauthorized"
    using unauthorized_qualifies
    by (intro onRejected_verifies) (simp_all add: idle_def logout_hangs_def)
  also have "\<dots> = (Awaiting_logout example_interceptor unauthorized,
      \<lparr> isCheckingAuth = True, effects = [Dispatch_checkAuth, Dispatch_logout] \<rparr>)"
    using session_expired_facts
    by (simp add: check_settles_confirmed_invalid after_logout_def logout_hangs_def idle_def)
  finally show ?thesis .
qed



lemma verification_started_run:
  "run verification_started initial =
     \<lparr> shared = \<lparr> isCheckingAuth = True, effects = [Dispatch_checkAuth] \<rparr>,
       tasks = [Awaiting_check example_interceptor unauthorized] \<rparr>"
  using unauthorized_qualifies
  by (simp add: verification_started_def run_def initial_def spawn_def onRejected_call_def
        emit_def)


section \<open>The claims about the handlers\<close>






text \<open>
  C3, as the code has it. \<open>onFulfilled\<close> returns its response. \<open>onRejected\<close> never resolves
  and never rejects with another error than the original one. The first step suspends
  only to await a dispatched verification, and otherwise rejects with the original
  error. When the verification settles (fulfilled, rejected or thrown), the call rejects
  with the original error at once, whether or not a logout would settle, but for one
  path: when the settled verification confirms that the user is not authenticated and
  the logout dispatch returns a promise, the call awaits that promise, and rejects with
  the original error when it settles; while it is pending, so is the call.
\<close>

theorem onRejected_propagates_original_error:
  "onFulfilled resp = resp \<and>
   fst (onRejected_call i c w e) =
     (if response_status e = JNum 401 \<and> \<not> url_includes e (the_authCheckPattern i) \<and>
         \<not> isCheckingAuth w \<and> c = Returns_promise
      then Awaiting_check i e else Settled (Rejected e)) \<and>
   fst (onRejected_check_settles i s c w e) =
     (if confirmed_invalid i s \<and> c = Returns_promise
      then Awaiting_logout i e else Settled (Rejected e)) \<and>
   fst (onRejected_logout_settles i s win w e) = Settled (Rejected e) \<and>
   fst (onRejected i env w e) =
     (if response_status e = JNum 401 \<and> \<not> url_includes e (the_authCheckPattern i) \<and>
         \<not> isCheckingAuth w \<and> check_call env = Returns_promise
      then (case check_settle env of
              None \<Rightarrow> Awaiting_check i e
            | Some s' \<Rightarrow>
                if confirmed_invalid i s' \<and> logout_call env = Returns_promise \<and>
                   logout_settle env = None
                then Awaiting_logout i e else Settled (Rejected e))
      else Settled (Rejected e)) \<and>
   Settled (Resolved v) \<notin> set (tasks (run evs initial))"
  using onRejected_call_task [of i c w e] onRejected_check_settles_task [of i s c w e]
    onRejected_task [of i env w e] reachable_never_resolves [of v evs]
  by (simp add: onFulfilled_def logout_settles_result)

theorem onRejected_propagates_original_error_witness:
  "onFulfilled validation_body = validation_body \<and>
   check_settle valid_logout_hangs = Some (Fulfils session_valid) \<and>
   logout_settle valid_logout_hangs = None \<and>
   fst (onRejected example_interceptor valid_logout_hangs idle unauthorized) =
     Settled (Rejected unauthorized) \<and>
   check_settle logout_succeeds = Some (Fulfils session_expired) \<and>
   fst (onRejected example_interceptor logout_succeeds idle unauthorized) =
     Settled (Rejected unauthorized) \<and>
   fst (onRejected example_interceptor logout_succeeds idle forbidden) =
     Settled (Rejected forbidden)"
proof -
  have v: "\<not> confirmed_invalid example_interceptor (Fulfils session_valid)"
    by (simp add: confirmed_invalid_def example_defs matches_def lit_def)
  have f: "response_status forbidden \<noteq> JNum 401"
    by (simp add: forbidden_def response_status_def)
  from onRejected_propagates_original_error
      [of validation_body example_interceptor Returns_promise idle unauthorized
          "Fulfils session_valid" None valid_logout_hangs]
    onRejected_propagates_original_error
      [of validation_body example_interceptor Returns_promise idle unauthorized
          "Fulfils session_valid" None logout_succeeds]
    onRejected_propagates_original_error
      [of validation_body example_interceptor Returns_promise idle forbidden
          "Fulfils session_valid" None logout_succeeds]
    unauthorized_qualifies v f
  show ?thesis
    by (simp add: valid_logout_hangs_def logout_succeeds_def idle_def)
qed

text \<open>
  The verification is rejected with a 401 payload and the promise of the logout dispatch
  never settles: the call stays suspended at the second \<^verbatim>\<open>await\<close>, the guard set, and its
  promise is never rejected.
\<close>

theorem logout_never_settles_counterexample:
  "check_settle logout_hangs = Some (Fulfils session_expired) \<and>
   onRejected example_interceptor logout_hangs idle unauthorized =
     (Awaiting_logout example_interceptor unauthorized,
      \<lparr> isCheckingAuth = True, effects = [Dispatch_checkAuth, Dispatch_logout] \<rparr>) \<and>
   fst (onRejected example_interceptor logout_hangs idle unauthorized) \<noteq>
     Settled (Rejected unauthorized)"
  by (simp add: logout_hangs_run) (simp add: logout_hangs_def)

text \<open>
  C4, as the code has it. The guard is free, the failure qualifies, and the verification
  fulfils with a result action that the rejected matcher (and not the fulfilled one)
  matches and whose payload is \<open>p\<close>. If \<^verbatim>\<open>p?.error?.statusCode\<close> is 401, the logout is
  dispatched once (unless creating its action throws); the window navigates to the login
  path, once, only if that dispatch fulfils and there is a window whose path is not the
  login path; if the logout dispatch throws or rejects the error is logged and there is
  no navigation. If the status code is not 401 there is neither logout nor navigation.
  In each case the call rejects with the original error and the guard is reset. (While
  the promise of the logout dispatch is pending, the logout has been dispatched once
  and the call is suspended.)
\<close>

theorem confirmed_invalid_outcome:
  assumes "\<not> isCheckingAuth w" "response_status e = JNum 401"
    "\<not> url_includes e (the_authCheckPattern i)"
    "check_call env = Returns_promise" "check_settle env = Some (Fulfils a)"
    "\<not> matches (fulfilled (the_checkAuthAction i)) a"
    "matches (rejected (the_checkAuthAction i)) a"
    "get_member a (lit ''payload'') = Inr p"
  shows "(opt_member (opt_member p (lit ''error'')) (lit ''statusCode'') = JNum 401 \<longrightarrow>
          logout_call env = Returns_promise \<longrightarrow> logout_settle env = Some (Fulfils v) \<longrightarrow>
          onRejected i env w e =
            (Settled (Rejected e),
             \<lparr> isCheckingAuth = False,
               effects = effects w @ [Dispatch_checkAuth, Dispatch_logout] @
                 (case window_pathname env of
                    None \<Rightarrow> []
                  | Some pathname \<Rightarrow>
                      if pathname \<noteq> the_loginPath i then [Navigate (the_loginPath i)]
                      else []) \<rparr>)) \<and>
         (opt_member (opt_member p (lit ''error'')) (lit ''statusCode'') = JNum 401 \<longrightarrow>
          logout_call env = Returns_promise \<longrightarrow> logout_settle env = Some (Rejects_with x) \<longrightarrow>
          onRejected i env w e =
            (Settled (Rejected e),
             \<lparr> isCheckingAuth = False,
               effects = effects w @ [Dispatch_checkAuth, Dispatch_logout, Console_error x] \<rparr>)) \<and>
         (opt_member (opt_member p (lit ''error'')) (lit ''statusCode'') = JNum 401 \<longrightarrow>
          logout_call env = Returns_promise \<longrightarrow> logout_settle env = None \<longrightarrow>
          onRejected i env w e =
            (Awaiting_logout i e,
             \<lparr> isCheckingAuth = True,
               effects = effects w @ [Dispatch_checkAuth, Dispatch_logout] \<rparr>)) \<and>
         (opt_member (opt_member p (lit ''error'')) (lit ''statusCode'') = JNum 401 \<longrightarrow>
          logout_call env = Dispatch_throws x \<longrightarrow>
          onRejected i env w e =
            (Settled (Rejected e),
             \<lparr> isCheckingAuth = False,
               effects = effects w @ [Dispatch_checkAuth, Dispatch_logout, Console_error x] \<rparr>)) \<and>
         (opt_member (opt_member p (lit ''error'')) (lit ''statusCode'') = JNum 401 \<longrightarrow>
          logout_call env = Creator_throws x \<longrightarrow>
          onRejected i env w e =
            (Settled (Rejected e),
             \<lparr> isCheckingAuth = False,
               effects = effects w @ [Dispatch_checkAuth, Console_error x] \<rparr>)) \<and>
         (opt_member (opt_member p (lit ''error'')) (lit ''statusCode'') \<noteq> JNum 401 \<longrightarrow>
          onRejected i env w e =
            (Settled (Rejected e),
             \<lparr> isCheckingAuth = False, effects = effects w @ [Dispatch_checkAuth] \<rparr>))"
proof -
  note v = onRejected_verifies [OF assms(1-5)]
  note c = check_settles_confirmed_invalid [OF assms(6-8)]
  note o = check_settles_other_reason [OF assms(6-8)]
  show ?thesis
    by (simp add: v c o after_logout_def logout_settles_result split: option.splits)
qed

theorem confirmed_invalid_outcome_witness:
  "\<not> isCheckingAuth idle \<and> response_status unauthorized = JNum 401 \<and>
   \<not> url_includes unauthorized (the_authCheckPattern example_interceptor) \<and>
   check_call logout_succeeds = Returns_promise \<and>
   check_settle logout_succeeds = Some (Fulfils session_expired) \<and>
   \<not> matches (fulfilled (the_checkAuthAction example_interceptor)) session_expired \<and>
   matches (rejected (the_checkAuthAction example_interceptor)) session_expired \<and>
   get_member session_expired (lit ''payload'') =
     Inr (JObj [(lit ''error'', JObj [(lit ''statusCode'', JNum 401)])]) \<and>
   logout_call logout_succeeds = Returns_promise \<and>
   logout_settle logout_succeeds = Some (Fulfils JUndefined) \<and>
   onRejected example_interceptor logout_succeeds idle unauthorized =
     (Settled (Rejected unauthorized),
      \<lparr> isCheckingAuth = False,
        effects = [Dispatch_checkAuth, Dispatch_logout, Navigate (lit ''/login'')] \<rparr>)"
proof -
  have h: "\<not> isCheckingAuth idle" "response_status unauthorized = JNum 401"
    "\<not> url_includes unauthorized (the_authCheckPattern example_interceptor)"
    "check_call logout_succeeds = Returns_promise"
    "check_settle logout_succeeds = Some (Fulfils session_expired)"
    "\<not> matches (fulfilled (the_checkAuthAction example_interceptor)) session_expired"
    "matches (rejected (the_checkAuthAction example_interceptor)) session_expired"
    "get_member session_expired (lit ''payload'') =
       Inr (JObj [(lit ''error'', JObj [(lit ''statusCode'', JNum 401)])])"
    using unauthorized_qualifies session_expired_facts
    by (simp_all add: idle_def logout_succeeds_def)
  have l: "the_loginPath example_interceptor = lit ''/login''"
    "lit ''/dashboard'' \<noteq> lit ''/login''"
    by (simp_all add: example_interceptor_def createAuthInterceptor_def lit_def)
  from confirmed_invalid_outcome [OF h, of JUndefined TypeError] session_expired_facts h l
  show ?thesis
    by (simp add: logout_succeeds_def idle_def)
qed

text \<open>
  The session has expired, the window is at \<^verbatim>\<open>/dashboard\<close>, and the logout dispatch
  rejects: the logout is dispatched, the error is logged, and there is no navigation.
\<close>

theorem logout_rejected_counterexample:
  "onRejected example_interceptor logout_fails idle unauthorized =
     (Settled (Rejected unauthorized),
      \<lparr> isCheckingAuth = False,
        effects = [Dispatch_checkAuth, Dispatch_logout, Console_error TypeError] \<rparr>) \<and>
   window_pathname logout_fails = Some (lit ''/dashboard'') \<and>
   lit ''/dashboard'' \<noteq> the_loginPath example_interceptor"
proof -
  have "onRejected example_interceptor logout_fails idle unauthorized =
     after_logout example_interceptor logout_fails
       (onRejected_check_settles example_interceptor (Fulfils session_expired)
          (logout_call logout_fails)
          \<lparr> isCheckingAuth = True, effects = effects idle @ [Dispatch_checkAuth] \<rparr>
          unauthorized) unauthorized"
    using unauthorized_qualifies
    by (intro onRejected_verifies) (simp_all add: idle_def logout_fails_def)
  also have "\<dots> = (Settled (Rejected unauthorized),
      \<lparr> isCheckingAuth = False,
        effects = [Dispatch_checkAuth, Dispatch_logout, Console_error TypeError] \<rparr>)"
    using session_expired_facts
    by (simp add: check_settles_confirmed_invalid after_logout_def logout_settles_result
          logout_fails_def idle_def)
  finally show ?thesis
    by (simp add: logout_fails_def example_interceptor_def createAuthInterceptor_def lit_def)
qed

text \<open>
  C5. The guard is free, the failure qualifies, and the verification fulfils with a result
  action the fulfilled matcher matches: the only effect is the dispatch of the
  verification (no logout, no navigation), the guard is reset, and the call rejects with
  the original error.
\<close>

theorem still_valid_outcome:
  assumes "\<not> isCheckingAuth w" "response_status e = JNum 401"
    "\<not> url_includes e (the_authCheckPattern i)"
    "check_call env = Returns_promise" "check_settle env = Some (Fulfils a)"
    "matches (fulfilled (the_checkAuthAction i)) a"
  shows "onRejected i env w e =
           (Settled (Rejected e),
            \<lparr> isCheckingAuth = False, effects = effects w @ [Dispatch_checkAuth] \<rparr>)"
  by (simp add: onRejected_verifies [OF assms(1-5)] check_settles_fulfilled [OF assms(6)]
        after_logout_def)

theorem still_valid_outcome_witness:
  "\<not> isCheckingAuth idle \<and> response_status unauthorized = JNum 401 \<and>
   \<not> url_includes unauthorized (the_authCheckPattern example_interceptor) \<and>
   check_call still_valid = Returns_promise \<and>
   check_settle still_valid = Some (Fulfils session_valid) \<and>
   matches (fulfilled (the_checkAuthAction example_interceptor)) session_valid \<and>
   onRejected example_interceptor still_valid idle unauthorized =
     (Settled (Rejected unauthorized),
      \<lparr> isCheckingAuth = False, effects = [Dispatch_checkAuth] \<rparr>)"
proof -
  have h: "\<not> isCheckingAuth idle" "response_status unauthorized = JNum 401"
    "\<not> url_includes unauthorized (the_authCheckPattern example_interceptor)"
    "check_call still_valid = Returns_promise"
    "check_settle still_valid = Some (Fulfils session_valid)"
    "matches (fulfilled (the_checkAuthAction example_interceptor)) session_valid"
    using unauthorized_qualifies
    by (simp_all add: example_defs matches_def lit_def)
  from still_valid_outcome [OF h] h show ?thesis by (simp add: idle_def)
qed

text \<open>
  C6. A failure whose response status is not 401 (or that has no response), and a 401
  failure whose request URL includes the configured pattern, is rejected again as it is:
  the first step returns, and the module state and the effects are unchanged.
\<close>

theorem onRejected_pass_through:
  assumes "response_status e \<noteq> JNum 401 \<or>
           response_status e = JNum 401 \<and> url_includes e (the_authCheckPattern i)"
  shows "onRejected_call i c w e = (Settled (Rejected e), w) \<and>
         onRejected i env w e = (Settled (Rejected e), w)"
  using assms by (auto simp: onRejected_def onRejected_call_def after_check_def)

theorem onRejected_pass_through_witness:
  "response_status forbidden \<noteq> JNum 401 \<and>
   onRejected example_interceptor logout_succeeds idle forbidden =
     (Settled (Rejected forbidden), idle) \<and>
   response_status check_unauthorized = JNum 401 \<and>
   url_includes check_unauthorized (the_authCheckPattern example_interceptor) \<and>
   onRejected example_interceptor logout_succeeds idle check_unauthorized =
     (Settled (Rejected check_unauthorized), idle) \<and>
   \<not> isCheckingAuth idle"
proof -
  have a: "response_status forbidden \<noteq> JNum 401"
    by (simp add: forbidden_def response_status_def)
  have b: "response_status check_unauthorized = JNum 401"
    "url_includes check_unauthorized (the_authCheckPattern example_interceptor)"
    by (simp_all add: check_unauthorized_def response_status_def url_includes_def
          example_interceptor_def createAuthInterceptor_def lit_def)
  from a b onRejected_pass_through [of forbidden example_interceptor Returns_promise idle logout_succeeds]
    onRejected_pass_through [of check_unauthorized example_interceptor Returns_promise idle logout_succeeds]
  show ?thesis by (simp add: idle_def)
qed

text \<open>
  C10. The guard is one variable of the module, read and written by the handlers of every
  interceptor object. In every reachable state in which some call of some interceptor is
  suspended at the verification, the guard is set, and a failure handed to any handler
  (of any configuration, or the legacy one) is rejected again with no effect and no
  change of state; for a 401 failure whose URL does not include the handler's pattern,
  the same call with the guard free would have dispatched a verification.
\<close>

theorem guard_shared_by_all_interceptors:
  assumes "n < length (tasks (run evs initial))"
    and "tasks (run evs initial) ! n = Awaiting_check i e0"
  shows "isCheckingAuth (shared (run evs initial)) \<and>
         step (Fails h e c) (run evs initial) =
           \<lparr> shared = shared (run evs initial),
             tasks = tasks (run evs initial) @ [Settled (Rejected e)] \<rparr> \<and>
         (response_status e = JNum 401 \<longrightarrow> \<not> url_includes e (the_authCheckPattern i') \<longrightarrow>
            fst (onRejected_call i' Returns_promise
                   ((shared (run evs initial))\<lparr>isCheckingAuth := False\<rparr>) e) =
              Awaiting_check i' e)"
proof -
  from assms have g: "isCheckingAuth (shared (run evs initial))"
    using suspended_guard [OF guard_inv_reachable, of n evs] by simp
  have "step (Fails h e c) (run evs initial) =
           \<lparr> shared = shared (run evs initial),
             tasks = tasks (run evs initial) @ [Settled (Rejected e)] \<rparr>"
    using g
    by (cases h) (simp_all add: spawn_def onRejected_call_guarded legacy_onRejected_guarded)
  with g show ?thesis by (simp add: onRejected_call_def)
qed

theorem guard_shared_by_all_interceptors_witness:
  "0 < length (tasks (run verification_started initial)) \<and>
   tasks (run verification_started initial) ! 0 =
     Awaiting_check example_interceptor unauthorized \<and>
   isCheckingAuth (shared (run verification_started initial)) \<and>
   step (Fails (Configured other_interceptor) unauthorized Returns_promise)
        (run verification_started initial) =
     \<lparr> shared = \<lparr> isCheckingAuth = True, effects = [Dispatch_checkAuth] \<rparr>,
       tasks = [Awaiting_check example_interceptor unauthorized,
                Settled (Rejected unauthorized)] \<rparr> \<and>
   step (Fails Legacy unauthorized Returns_promise) (run verification_started initial) =
     \<lparr> shared = \<lparr> isCheckingAuth = True, effects = [Dispatch_checkAuth] \<rparr>,
       tasks = [Awaiting_check example_interceptor unauthorized,
                Settled (Rejected unauthorized)] \<rparr> \<and>
   response_status unauthorized = JNum 401 \<and>
   \<not> url_includes unauthorized (the_authCheckPattern other_interceptor)"
proof -
  have a: "0 < length (tasks (run verification_started initial))"
    "tasks (run verification_started initial) ! 0 =
       Awaiting_check example_interceptor unauthorized"
    by (simp_all add: verification_started_run)
  have b: "\<not> url_includes unauthorized (the_authCheckPattern other_interceptor)"
    by (simp add: other_interceptor_def createAuthInterceptor_def unauthorized_def
          url_includes_def lit_def)
  from guard_shared_by_all_interceptors [OF a, of "Configured other_interceptor" unauthorized]
    guard_shared_by_all_interceptors [OF a, of Legacy unauthorized]
    a b unauthorized_qualifies
  show ?thesis by (simp add: verification_started_run)
qed

end
